theory Spec2Isabelle
  imports Main
begin

section \<open>JavaScript values\<close>

text \<open>
  The values an argument of a tool call can hold: the JSON scalars and arrays that the
  tool schemas of \<^verbatim>\<open>lib/tools.ts\<close> admit, plus \<^verbatim>\<open>undefined\<close>. Strings are lists of
  code units (\<^verbatim>\<open>length\<close>, \<^verbatim>\<open>slice\<close>, \<^verbatim>\<open>split\<close>, \<^verbatim>\<open>startsWith\<close> all count code units);
  numbers are the integer-valued ones, so \<^verbatim>\<open>NaN\<close>, infinities and fractions are outside
  the model.
\<close>

datatype jsval =
    JUndefined
  | JNull
  | JBool bool
  | JNum int
  | JStr string
  | JArr "jsval list"

text \<open>\<^verbatim>\<open>Record<string, unknown>\<close>: an object read by key.\<close>

type_synonym argset = "string \<rightharpoonup> jsval"

text \<open>
  A field of a message part: a scalar or array, or a (flat) object such as the tool
  input.
\<close>

datatype jsany = Val jsval | Obj argset

text \<open>\<^verbatim>\<open>obj[key]\<close>: a key that is not there reads as \<^verbatim>\<open>undefined\<close>.\<close>

definition get_prop :: "argset \<Rightarrow> string \<Rightarrow> jsval" where
  "get_prop obj k = (case obj k of None \<Rightarrow> JUndefined | Some v \<Rightarrow> v)"

text \<open>ToBoolean.\<close>

fun truthy :: "jsval \<Rightarrow> bool" where
  "truthy JUndefined = False"
| "truthy JNull = False"
| "truthy (JBool b) = b"
| "truthy (JNum n) = (n \<noteq> 0)"
| "truthy (JStr s) = (s \<noteq> [])"
| "truthy (JArr xs) = True"

fun truthy_any :: "jsany \<Rightarrow> bool" where
  "truthy_any (Val v) = truthy v"
| "truthy_any (Obj obj) = True"

text \<open>\<^verbatim>\<open>a || b\<close>.\<close>

definition js_or :: "jsany \<Rightarrow> jsany \<Rightarrow> jsany" where
  "js_or a b = (if truthy_any a then a else b)"

subsection \<open>String operations\<close>

text \<open>\<^verbatim>\<open>s.startsWith(p)\<close>.\<close>

definition startsWith :: "string \<Rightarrow> string \<Rightarrow> bool" where
  "startsWith s p = (take (length p) s = p)"

text \<open>
  \<^verbatim>\<open>s.replace(pat, rep)\<close> with a string pattern: the first occurrence only. (The
  replacement used in this program is the empty string, so no \<^verbatim>\<open>$\<close> pattern arises.)
\<close>

fun replace_first :: "string \<Rightarrow> string \<Rightarrow> string \<Rightarrow> string" where
  "replace_first [] pat rep = (if pat = [] then rep else [])"
| "replace_first (c # cs) pat rep =
     (if startsWith (c # cs) pat then rep @ drop (length pat) (c # cs)
      else c # replace_first cs pat rep)"

text \<open>\<^verbatim>\<open>s.split(sep)\<close> with a one-character separator: the empty string gives one empty segment.\<close>

fun js_split :: "string \<Rightarrow> char \<Rightarrow> string list" where
  "js_split [] sep = [[]]"
| "js_split (c # cs) sep =
     (if c = sep then [] # js_split cs sep
      else (case js_split cs sep of
              [] \<Rightarrow> [[c]]
            | seg # segs \<Rightarrow> (c # seg) # segs))"

text \<open>
  \<^verbatim>\<open>s.trim()\<close> strips white space and line terminators from both ends; of those, the code
  units below 256 are tab, line feed, vertical tab, form feed, carriage return, space and
  no-break space.
\<close>

definition isWhiteSpace :: "char \<Rightarrow> bool" where
  "isWhiteSpace c =
     (c \<in> {CHR 0x09, CHR 0x0A, CHR 0x0B, CHR 0x0C, CHR 0x0D, CHR 0x20, CHR 0xA0})"

definition trim :: "string \<Rightarrow> string" where
  "trim s = rev (dropWhile isWhiteSpace (rev (dropWhile isWhiteSpace s)))"

fun join_with :: "string \<Rightarrow> string list \<Rightarrow> string" where
  "join_with sep [] = []"
| "join_with sep [x] = x"
| "join_with sep (x # y # ys) = x @ sep @ join_with sep (y # ys)"

text \<open>
  ToString. An integer prints in decimal (as \<^verbatim>\<open>Number.prototype.toString\<close> does below
  \<open>10\<^sup>2\<^sup>1\<close>); an array prints its elements joined by commas, \<^verbatim>\<open>null\<close> and
  \<^verbatim>\<open>undefined\<close> elements as nothing.
\<close>

definition digit_char :: "nat \<Rightarrow> char" where
  "digit_char d = ''0123456789'' ! d"

fun show_nat :: "nat \<Rightarrow> string" where
  "show_nat n =
     (if n < 10 then [digit_char n] else show_nat (n div 10) @ [digit_char (n mod 10)])"

declare show_nat.simps [simp del]

definition show_int :: "int \<Rightarrow> string" where
  "show_int i = (if i < 0 then CHR ''-'' # show_nat (nat (- i)) else show_nat (nat i))"

fun js_to_string :: "jsval \<Rightarrow> string" where
  "js_to_string JUndefined = ''undefined''"
| "js_to_string JNull = ''null''"
| "js_to_string (JBool b) = (if b then ''true'' else ''false'')"
| "js_to_string (JNum n) = show_int n"
| "js_to_string (JStr s) = s"
| "js_to_string (JArr xs) =
     join_with '',''
       (map (\<lambda>x. if x = JUndefined \<or> x = JNull then [] else js_to_string x) xs)"

text \<open>\<^verbatim>\<open>xs.join(sep)\<close>.\<close>

definition js_join :: "jsval list \<Rightarrow> string \<Rightarrow> string" where
  "js_join xs sep =
     join_with sep
       (map (\<lambda>x. if x = JUndefined \<or> x = JNull then [] else js_to_string x) xs)"

section \<open>Conversation mapper (app/page.tsx)\<close>

text \<open>
  A message part: its discriminant \<^verbatim>\<open>type\<close>, a string in every member of the part
  union, and its other properties, read through the cast to
  \<^verbatim>\<open>Record<string, unknown>\<close>.
\<close>

record part =
  ptype :: string
  props :: "string \<rightharpoonup> jsany"

definition get_field :: "part \<Rightarrow> string \<Rightarrow> jsany" where
  "get_field p k = (case props p k of None \<Rightarrow> Val JUndefined | Some v \<Rightarrow> v)"

record invocation =
  toolCallId :: jsany
  toolName :: jsany
  args :: jsany
  state :: jsany
  result :: jsany
  errorText :: jsany

definition isToolPart :: "part \<Rightarrow> bool" where
  "isToolPart p = (startsWith (ptype p) ''tool-'' \<or> ptype p = ''dynamic-tool'')"

definition toInvocation :: "part \<Rightarrow> invocation" where
  "toInvocation p =
     (let isStaticTool = (startsWith (ptype p) ''tool-'' \<and> ptype p \<noteq> ''dynamic-tool'');
          toolName = (if isStaticTool then Val (JStr (replace_first (ptype p) ''tool-'' ''''))
                      else get_field p ''toolName'');
          args = js_or (get_field p ''input'') (Obj Map.empty)
      in \<lparr> toolCallId = get_field p ''toolCallId'',
           toolName = toolName,
           args = args,
           state = get_field p ''state'',
           result = get_field p ''output'',
           errorText = get_field p ''errorText'' \<rparr>)"

definition getToolInvocations :: "part list \<Rightarrow> invocation list" where
  "getToolInvocations parts = map toInvocation (filter isToolPart parts)"

datatype displayStatus = Pending | Running | Completed | Error

text \<open>
  \<^verbatim>\<open>getToolStatus\<close> is declared on strings but receives the uncast \<^verbatim>\<open>state\<close> property, so
  the model takes any value; \<^verbatim>\<open>===\<close> against a string literal holds for that string only.
\<close>

definition getToolStatus :: "jsany \<Rightarrow> displayStatus" where
  "getToolStatus st =
     (if st = Val (JStr ''output-available'') then Completed
      else if st = Val (JStr ''output-error'') then Error
      else if st = Val (JStr ''input-available'') then Running
      else if st = Val (JStr ''input-streaming'') then Running
      else Pending)"

text \<open>The mapper as the specification words it, for comparison with the code.\<close>

definition spec_is_tool_part :: "part \<Rightarrow> bool" where
  "spec_is_tool_part p =
     (take 5 (ptype p) = ''tool-'' \<or> ptype p = ''dynamic-tool'')"

definition spec_tool_name :: "part \<Rightarrow> jsany" where
  "spec_tool_name p =
     (if take 5 (ptype p) = ''tool-'' then Val (JStr (drop 5 (ptype p)))
      else get_field p ''toolName'')"

definition spec_projection :: "jsany \<Rightarrow> displayStatus" where
  "spec_projection st =
     (case st of
        Val (JStr s) \<Rightarrow>
          (if s = ''input-streaming'' \<or> s = ''input-available'' then Running
           else if s = ''output-available'' then Completed
           else if s = ''output-error'' then Error
           else Pending)
      | _ \<Rightarrow> Pending)"

section \<open>Parameter editor (components/ParameterDisplay.tsx)\<close>

definition isParamUsed :: "argset \<Rightarrow> string \<Rightarrow> bool" where
  "isParamUsed a k =
     (let v = get_prop a k in v \<noteq> JUndefined \<and> v \<noteq> JNull \<and> v \<noteq> JStr '''')"

text \<open>\<^verbatim>\<open>ParameterConfig\<close> of \<^verbatim>\<open>lib/tools.ts\<close>; a descriptor without default has \<^verbatim>\<open>undefined\<close> there.\<close>

datatype paramType = PText | PNumber | PSelect | PArray | PBoolean | PDate

datatype sectionName = Search | Filters | Contents

record ParameterConfig =
  key :: string
  label :: string
  kind :: paramType
  paramSection :: sectionName
  required :: bool
  default_value :: jsval
  options :: "string list option"
  description :: "string option"

text \<open>\<^verbatim>\<open>handleChange\<close>: the argument of \<^verbatim>\<open>onChange\<close>, \<^verbatim>\<open>{ ...args, [key]: value }\<close>.\<close>

definition handleChange :: "argset \<Rightarrow> string \<Rightarrow> jsval \<Rightarrow> argset" where
  "handleChange a k v = a(k \<mapsto> v)"

text \<open>
  The \<^verbatim>\<open>onChange\<close> handler of the input of an array parameter, on the text entered:
  \<^verbatim>\<open>arr\<close> is the text split at commas, each segment trimmed, the empty ones dropped.
\<close>

definition arraySegments :: "string \<Rightarrow> string list" where
  "arraySegments text = filter (\<lambda>s. length s > 0) (map trim (js_split text CHR '',''))"

definition array_onChange :: "argset \<Rightarrow> string \<Rightarrow> string \<Rightarrow> argset" where
  "array_onChange a k text =
     (let arr = arraySegments text
      in handleChange a k (if length arr > 0 then JArr (map JStr arr) else JUndefined))"

text \<open>The \<^verbatim>\<open>value\<close> shown by the input of an array parameter.\<close>

definition array_input_value :: "argset \<Rightarrow> string \<Rightarrow> string" where
  "array_input_value a k =
     (case get_prop a k of JArr xs \<Rightarrow> js_join xs '', '' | _ \<Rightarrow> [])"

text \<open>What \<^verbatim>\<open>renderValue\<close> puts on the screen in view mode.\<close>

datatype rendering =
    NotSet
  | DefaultOf string
  | NoneLabel
  | Chips "string list"
  | YesNo bool
  | PlainText string

definition renderValue :: "argset \<Rightarrow> ParameterConfig \<Rightarrow> rendering" where
  "renderValue a param =
     (let v = get_prop a (key param) in
      if \<not> isParamUsed a (key param) then
        (if default_value param \<noteq> JUndefined
         then DefaultOf (js_to_string (default_value param)) else NotSet)
      else
        (case v of
           JArr xs \<Rightarrow> if length xs = 0 then NoneLabel else Chips (map js_to_string xs)
         | JBool b \<Rightarrow> YesNo b
         | _ \<Rightarrow> PlainText (js_to_string v)))"

section \<open>Tool call card (components/ToolCallCard.tsx)\<close>

text \<open>
  The props of a card, its own state, the state of the parameter editor mounted inside
  it, and the calls made to \<^verbatim>\<open>onRerun\<close> so far (oldest first). \<^verbatim>\<open>availableParams\<close> is what
  \<^verbatim>\<open>getToolParameters(toolName)\<close> returns; \<^verbatim>\<open>onRerun\<close> says whether the callback was
  passed.
\<close>

record card =
  availableParams :: "ParameterConfig list"
  argsProp :: argset
  resultProp :: "string option"
  statusProp :: displayStatus
  onRerun :: bool
  isExpanded :: bool
  isResultExpanded :: bool
  editedArgs :: argset
  hasUnsavedChanges :: bool
  editMode :: bool
  showAllParams :: bool
  reruns :: "argset list"

text \<open>The effect that runs after a render in which \<^verbatim>\<open>args\<close> or \<^verbatim>\<open>hasUnsavedChanges\<close> changed.\<close>

definition syncEffect :: "card \<Rightarrow> card" where
  "syncEffect s = (if \<not> hasUnsavedChanges s then s\<lparr>editedArgs := argsProp s\<rparr> else s)"

definition mount ::
  "ParameterConfig list \<Rightarrow> argset \<Rightarrow> string option \<Rightarrow> displayStatus \<Rightarrow> bool \<Rightarrow> card" where
  "mount params a r st cb =
     syncEffect
       \<lparr> availableParams = params, argsProp = a, resultProp = r, statusProp = st,
         onRerun = cb, isExpanded = False, isResultExpanded = False, editedArgs = a,
         hasUnsavedChanges = False, editMode = False, showAllParams = False,
         reruns = [] \<rparr>"

definition handleRerun :: "card \<Rightarrow> card" where
  "handleRerun s =
     (if onRerun s
      then s\<lparr>reruns := reruns s @ [editedArgs s], hasUnsavedChanges := False\<rparr>
      else s)"

definition handleArgsChange :: "argset \<Rightarrow> card \<Rightarrow> card" where
  "handleArgsChange newArgs s = s\<lparr>editedArgs := newArgs, hasUnsavedChanges := True\<rparr>"

definition handleDoneEditing :: "card \<Rightarrow> card" where
  "handleDoneEditing s = (if hasUnsavedChanges s then handleRerun s else s)"

definition editable :: "card \<Rightarrow> bool" where
  "editable s = (statusProp s = Completed \<or> statusProp s = Error)"

text \<open>The click handler of the edit toggle of the parameter editor.\<close>

definition toggleEdit :: "card \<Rightarrow> card" where
  "toggleEdit s =
     (let s' = s\<lparr>editMode := \<not> editMode s\<rparr>
      in if editMode s then handleDoneEditing s' else s')"

datatype event =
    HeaderClick
  | ResultToggle
  | RerunClick
  | EditToggle
  | ShowAllToggle
  | ParamChange string jsval
  | Upstream argset "string option" displayStatus
  | UpstreamSameArgs "string option" displayStatus

text \<open>
  Whether the control an event comes from is on the screen. The parameter editor is
  rendered only in the expanded card; with no registered parameters it shows the raw
  arguments and no control at all.
\<close>

fun rendered :: "card \<Rightarrow> event \<Rightarrow> bool" where
  "rendered s HeaderClick = True"
| "rendered s ResultToggle =
     (isExpanded s \<and> (case resultProp s of None \<Rightarrow> False | Some r \<Rightarrow> r \<noteq> []))"
| "rendered s RerunClick = (isExpanded s \<and> onRerun s \<and> editable s)"
| "rendered s EditToggle = (isExpanded s \<and> availableParams s \<noteq> [] \<and> editable s)"
| "rendered s ShowAllToggle =
     (isExpanded s \<and> availableParams s \<noteq> []
      \<and> length (filter (\<lambda>p. \<not> isParamUsed (editedArgs s) (key p)) (availableParams s)) > 0
      \<and> \<not> editMode s)"
| "rendered s (ParamChange k v) =
     (isExpanded s \<and> availableParams s \<noteq> [] \<and> editMode s \<and> editable s
      \<and> k \<in> set (map key (availableParams s)))"
| "rendered s (Upstream a r st) = True"
| "rendered s (UpstreamSameArgs r st) = True"

text \<open>
  The handlers. Collapsing the card unmounts the parameter editor, which starts again in
  view mode when the card is expanded. \<^verbatim>\<open>ParamChange k v\<close> is an edit in the input of
  parameter \<open>k\<close>, where \<open>v\<close> is the value its handler passes to \<^verbatim>\<open>handleChange\<close>.
  \<^verbatim>\<open>Upstream\<close> is a render with a new \<^verbatim>\<open>args\<close> object, \<^verbatim>\<open>UpstreamSameArgs\<close> one in which
  only the result and the status moved.
\<close>

fun handle :: "event \<Rightarrow> card \<Rightarrow> card" where
  "handle HeaderClick s =
     s\<lparr>isExpanded := \<not> isExpanded s, editMode := False, showAllParams := False\<rparr>"
| "handle ResultToggle s = s\<lparr>isResultExpanded := \<not> isResultExpanded s\<rparr>"
| "handle RerunClick s = handleRerun s"
| "handle EditToggle s = toggleEdit s"
| "handle ShowAllToggle s = s\<lparr>showAllParams := \<not> showAllParams s\<rparr>"
| "handle (ParamChange k v) s = handleArgsChange (handleChange (editedArgs s) k v) s"
| "handle (Upstream a r st) s = s\<lparr>argsProp := a, resultProp := r, statusProp := st\<rparr>"
| "handle (UpstreamSameArgs r st) s = s\<lparr>resultProp := r, statusProp := st\<rparr>"

fun args_changed :: "event \<Rightarrow> bool" where
  "args_changed (Upstream a r st) = True"
| "args_changed e = False"

fun is_param_change :: "event \<Rightarrow> bool" where
  "is_param_change (ParamChange k v) = True"
| "is_param_change e = False"

definition step :: "card \<Rightarrow> event \<Rightarrow> card" where
  "step s e =
     (if rendered s e then
        (let s' = handle e s
         in if args_changed e \<or> hasUnsavedChanges s' \<noteq> hasUnsavedChanges s
            then syncEffect s' else s')
      else s)"

definition run :: "card \<Rightarrow> event list \<Rightarrow> card" where
  "run s es = foldl step s es"

subsection \<open>Collapsed-view summary\<close>

datatype error = TypeError

text \<open>
  The "domains" chip. \<^verbatim>\<open>includeDomains\<close> is cast to an array without a check: on a
  non-empty string \<^verbatim>\<open>length\<close> is positive and \<^verbatim>\<open>join\<close> is not a function; numbers and
  \<^verbatim>\<open>true\<close> have no \<^verbatim>\<open>length\<close>, and \<^verbatim>\<open>undefined > 0\<close> is false.
\<close>

definition domainsChip :: "jsval \<Rightarrow> error + string list" where
  "domainsChip v =
     (if \<not> truthy v then Inr []
      else (case v of
              JArr xs \<Rightarrow>
                if length xs > 0 then Inr [''domains: '' @ js_join xs '', ''] else Inr []
            | JStr s \<Rightarrow> if length s > 0 then Inl TypeError else Inr []
            | _ \<Rightarrow> Inr []))"

definition getParamsSummary :: "argset \<Rightarrow> error + string list" where
  "getParamsSummary a =
     (let ty = get_prop a ''type'';
          category = get_prop a ''category'';
          numResults = get_prop a ''numResults'';
          s1 = (if truthy ty \<and> ty \<noteq> JStr ''auto''
                then [''type: '' @ js_to_string ty] else []);
          s2 = (if truthy category then [''category: '' @ js_to_string category] else []);
          s3 = (if truthy numResults \<and> numResults \<noteq> JNum 5
                then [''results: '' @ js_to_string numResults] else [])
      in case domainsChip (get_prop a ''includeDomains'') of
           Inl e \<Rightarrow> Inl e
         | Inr s4 \<Rightarrow>
             Inr (s1 @ s2 @ s3 @ s4
                  @ (if truthy (get_prop a ''startPublishedDate'')
                        \<or> truthy (get_prop a ''endPublishedDate'')
                     then [''date filter''] else [])))"

text \<open>The chips of the collapsed card: the first three, and the count of the others.\<close>

definition summaryChips :: "card \<Rightarrow> error + (string list \<times> nat)" where
  "summaryChips s =
     (case getParamsSummary (argsProp s) of
        Inl e \<Rightarrow> Inl e
      | Inr paramsSummary \<Rightarrow>
          if \<not> isExpanded s \<and> length paramsSummary > 0
          then Inr (take 3 paramsSummary, length paramsSummary - 3)
          else Inr ([], 0))"

subsection \<open>Result panel\<close>

text \<open>
  The text after the preview is a quoted string inside the JSX braces, so the braces in
  it are characters of the string.
\<close>

definition truncation_notice :: string where
  "truncation_notice =
     CHR 0x0A # CHR 0x0A # ''... truncated ({result.length - 2000} more characters)''"

definition resultPreview :: "string \<Rightarrow> string" where
  "resultPreview r = take 2000 r @ (if length r > 2000 then truncation_notice else [])"

definition resultPanel :: "card \<Rightarrow> string option" where
  "resultPanel s =
     (case resultProp s of
        None \<Rightarrow> None
      | Some r \<Rightarrow>
          if isExpanded s \<and> r \<noteq> [] \<and> isResultExpanded s
          then Some (resultPreview r) else None)"

section \<open>Example inputs\<close>

definition example_search_part :: part where
  "example_search_part =
     \<lparr> ptype = ''tool-exa_search'',
       props = [''input'' \<mapsto> Obj [''query'' \<mapsto> JStr ''rust ownership''],
                ''state'' \<mapsto> Val (JStr ''input-available'')] \<rparr>"

definition example_dynamic_part :: part where
  "example_dynamic_part =
     \<lparr> ptype = ''dynamic-tool'',
       props = [''toolName'' \<mapsto> Val (JStr ''exa_contents'')] \<rparr>"

definition example_params :: "ParameterConfig list" where
  "example_params =
     [\<lparr> key = ''query'', label = ''Search Query'', kind = PText, paramSection = Search,
         required = True, default_value = JUndefined, options = None,
         description = Some ''The search query'' \<rparr>,
      \<lparr> key = ''numResults'', label = ''Number of Results'', kind = PNumber,
         paramSection = Search, required = False, default_value = JNum 5, options = None,
         description = Some ''Number of results to return (1-100)'' \<rparr>,
      \<lparr> key = ''includeDomains'', label = ''Include Domains'', kind = PArray,
         paramSection = Filters, required = False, default_value = JUndefined,
         options = None, description = Some ''Only search these domains'' \<rparr>]"

definition example_args :: argset where
  "example_args = [''query'' \<mapsto> JStr ''rust ownership'']"

text \<open>A completed search call, freshly mounted; then expanded; then with an unsaved edit.\<close>

definition example_card :: card where
  "example_card = mount example_params example_args None Completed True"

definition example_expanded :: card where
  "example_expanded = run example_card [HeaderClick]"

definition example_dirty :: card where
  "example_dirty =
     run example_card [HeaderClick, EditToggle, ParamChange ''numResults'' (JNum 10)]"

text \<open>An argument set with one domain filter.\<close>

definition example_domains :: argset where
  "example_domains = [''includeDomains'' \<mapsto> JArr [JStr ''a.com'']]"

text \<open>Cards whose upstream arguments are \<^verbatim>\<open>{numResults: n}\<close>, collapsed.\<close>

definition numResults_card :: "int \<Rightarrow> card" where
  "numResults_card n = mount [] [''numResults'' \<mapsto> JNum n] None Completed True"

text \<open>A card with a result of 2500 characters, expanded, the result panel open.\<close>

definition long_result_card :: card where
  "long_result_card =
     run (mount [] Map.empty (Some (replicate 2500 (CHR ''x''))) Completed True)
       [HeaderClick, ResultToggle]"

section \<open>Properties\<close>

lemma replace_first_prefix:
  "startsWith s pat \<Longrightarrow> replace_first s pat rep = rep @ drop (length pat) s"
  by (cases s) (auto simp: startsWith_def)

lemma length_tool_prefix: "length ''tool-'' = 5"
  by simp

lemma startsWith_tool: "startsWith s ''tool-'' = (take 5 s = ''tool-'')"
  unfolding startsWith_def length_tool_prefix ..

lemma strip_tool_prefix:
  "startsWith s ''tool-'' \<Longrightarrow> replace_first s ''tool-'' '''' = drop 5 s"
  using replace_first_prefix [of s "''tool-''" "''''"]
  unfolding length_tool_prefix by simp

lemma dynamic_not_static: "\<not> startsWith ''dynamic-tool'' ''tool-''"
  by (simp add: startsWith_def)

lemma toolName_spec: "toolName (toInvocation p) = spec_tool_name p"
proof (cases "startsWith (ptype p) ''tool-''")
  case True
  then have "ptype p \<noteq> ''dynamic-tool''"
    using dynamic_not_static by auto
  with True show ?thesis
    by (simp add: toInvocation_def spec_tool_name_def strip_tool_prefix
        startsWith_tool [symmetric])
next
  case False
  then show ?thesis
    by (simp add: toInvocation_def spec_tool_name_def startsWith_tool [symmetric])
qed


lemma isToolPart_spec: "isToolPart p = spec_is_tool_part p"
  by (simp add: isToolPart_def spec_is_tool_part_def startsWith_tool)

lemma filter_tool_parts: "filter isToolPart parts = filter spec_is_tool_part parts"
  by (simp add: isToolPart_spec [abs_def])

lemma getToolStatus_string:
  "getToolStatus (Val (JStr s)) =
     (if s = ''input-streaming'' \<or> s = ''input-available'' then Running
      else if s = ''output-available'' then Completed
      else if s = ''output-error'' then Error
      else Pending)"
  by (simp add: getToolStatus_def)

text \<open>
  C3. The mapper emits one invocation record per tool part, in the order of the parts,
  where a part is a tool part iff its tag starts with "tool-" or equals "dynamic-tool";
  the tool name is the tag without the prefix in the first case and the part's
  \<^verbatim>\<open>toolName\<close> field otherwise. The part tagged "tool-exa_search" with input
  \<^verbatim>\<open>{query: "rust ownership"}\<close> and state "input-available" maps to the tool name
  "exa_search" and the display status running.
\<close>

theorem getToolInvocations_spec:
  "getToolInvocations parts = map toInvocation (filter spec_is_tool_part parts)
   \<and> map toolName (getToolInvocations parts)
       = map spec_tool_name (filter spec_is_tool_part parts)
   \<and> length (getToolInvocations parts) = length (filter spec_is_tool_part parts)
   \<and> getToolInvocations (parts @ others)
       = getToolInvocations parts @ getToolInvocations others
   \<and> map (\<lambda>i. (toolName i, getToolStatus (state i)))
         (getToolInvocations [example_search_part])
       = [(Val (JStr ''exa_search''), Running)]"
proof -
  have a: "getToolInvocations parts = map toInvocation (filter spec_is_tool_part parts)"
    by (simp add: getToolInvocations_def filter_tool_parts)
  have b: "map toolName (getToolInvocations parts)
             = map spec_tool_name (filter spec_is_tool_part parts)"
    by (simp add: a toolName_spec)
  have c: "length (getToolInvocations parts) = length (filter spec_is_tool_part parts)"
    by (simp add: a)
  have d: "getToolInvocations (parts @ others)
             = getToolInvocations parts @ getToolInvocations others"
    by (simp add: getToolInvocations_def)
  have tool: "spec_is_tool_part example_search_part"
    by (simp add: spec_is_tool_part_def example_search_part_def)
  have name: "spec_tool_name example_search_part = Val (JStr ''exa_search'')"
    by (simp add: spec_tool_name_def example_search_part_def)
  have st: "state (toInvocation example_search_part) = Val (JStr ''input-available'')"
    by (simp add: toInvocation_def get_field_def example_search_part_def)
  have e: "map (\<lambda>i. (toolName i, getToolStatus (state i)))
             (getToolInvocations [example_search_part])
           = [(Val (JStr ''exa_search''), Running)]"
    using tool name st
    by (simp add: getToolInvocations_def isToolPart_spec toolName_spec getToolStatus_string)
  from a b c d e show ?thesis by blast
qed

text \<open>
  C6. The display status is a function of the lifecycle state alone: "input-streaming"
  and "input-available" give running, "output-available" gives completed,
  "output-error" gives error, and every other value gives pending.
\<close>

theorem getToolStatus_projection:
  "getToolStatus st = spec_projection st"
proof (cases st)
  case (Val v)
  then show ?thesis
    by (cases v) (simp_all add: spec_projection_def getToolStatus_def)
next
  case (Obj obj)
  then show ?thesis
    by (simp add: spec_projection_def getToolStatus_def)
qed

text \<open>
  C5. A key is classified unused iff reading it gives \<^verbatim>\<open>undefined\<close> (the key is not
  there, or holds \<^verbatim>\<open>undefined\<close>), \<^verbatim>\<open>null\<close> or the empty string; a key that holds
  \<^verbatim>\<open>false\<close> or \<^verbatim>\<open>0\<close> is classified used.
\<close>

theorem isParamUsed_unused_iff:
  "(\<not> isParamUsed a k)
     = (a k = None \<or> a k = Some JUndefined \<or> a k = Some JNull \<or> a k = Some (JStr ''''))
   \<and> isParamUsed (a(k \<mapsto> JBool False)) k
   \<and> isParamUsed (a(k \<mapsto> JNum 0)) k"
  by (auto simp: isParamUsed_def get_prop_def split: option.splits)

text \<open>
  C8. A tool part whose input field is missing or falsy maps to an invocation whose
  arguments are the empty object. Every tool part gets a record, whatever fields it
  has: a missing output, error text or state reads as \<^verbatim>\<open>undefined\<close>, and a state
  that is missing or not one of the four lifecycle strings projects to pending.
\<close>

theorem toInvocation_defaults:
  "(\<not> truthy_any (get_field p ''input'') \<longrightarrow> args (toInvocation p) = Obj Map.empty)
   \<and> (props p ''output'' = None \<longrightarrow> result (toInvocation p) = Val JUndefined)
   \<and> (props p ''errorText'' = None \<longrightarrow> errorText (toInvocation p) = Val JUndefined)
   \<and> (props p ''state'' = None \<longrightarrow> state (toInvocation p) = Val JUndefined)
   \<and> (state (toInvocation p) \<notin> Val ` JStr ` {''input-streaming'', ''input-available'',
          ''output-available'', ''output-error''}
        \<longrightarrow> getToolStatus (state (toInvocation p)) = Pending)
   \<and> length (getToolInvocations parts) = length (filter isToolPart parts)"
  by (auto simp: toInvocation_def js_or_def get_field_def getToolStatus_def
      getToolInvocations_def)

theorem toInvocation_defaults_witness:
  "\<not> truthy_any (get_field example_dynamic_part ''input'')
   \<and> props example_dynamic_part ''output'' = None
   \<and> props example_dynamic_part ''errorText'' = None
   \<and> props example_dynamic_part ''state'' = None
   \<and> state (toInvocation example_dynamic_part)
        \<notin> Val ` JStr ` {''input-streaming'', ''input-available'',
             ''output-available'', ''output-error''}
   \<and> getToolInvocations [example_dynamic_part]
       = [\<lparr> toolCallId = Val JUndefined, toolName = Val (JStr ''exa_contents''),
            args = Obj Map.empty, state = Val JUndefined, result = Val JUndefined,
            errorText = Val JUndefined \<rparr>]
   \<and> getToolStatus (state (toInvocation example_dynamic_part)) = Pending"
proof -
  have h1: "\<not> truthy_any (get_field example_dynamic_part ''input'')"
    by (simp add: get_field_def example_dynamic_part_def)
  have h2: "props example_dynamic_part ''output'' = None"
    by (simp add: example_dynamic_part_def)
  have h3: "props example_dynamic_part ''errorText'' = None"
    by (simp add: example_dynamic_part_def)
  have h4: "props example_dynamic_part ''state'' = None"
    by (simp add: example_dynamic_part_def)
  have nm: "toolName (toInvocation example_dynamic_part) = Val (JStr ''exa_contents'')"
    by (simp add: toInvocation_def startsWith_def get_field_def example_dynamic_part_def)
  have id: "toolCallId (toInvocation example_dynamic_part) = Val JUndefined"
    by (simp add: toInvocation_def get_field_def example_dynamic_part_def)
  have tp: "isToolPart example_dynamic_part"
    by (simp add: isToolPart_def example_dynamic_part_def)
  note d = toInvocation_defaults [of example_dynamic_part "[example_dynamic_part]"]
  from d h4 have h5: "state (toInvocation example_dynamic_part)
        \<notin> Val ` JStr ` {''input-streaming'', ''input-available'',
             ''output-available'', ''output-error''}"
    by auto
  have rec: "toInvocation example_dynamic_part
       = \<lparr> toolCallId = Val JUndefined, toolName = Val (JStr ''exa_contents''),
            args = Obj Map.empty, state = Val JUndefined, result = Val JUndefined,
            errorText = Val JUndefined \<rparr>"
    using d h1 h2 h3 h4 nm id by (cases "toInvocation example_dynamic_part") simp
  have inv: "getToolInvocations [example_dynamic_part]
       = [\<lparr> toolCallId = Val JUndefined, toolName = Val (JStr ''exa_contents''),
            args = Obj Map.empty, state = Val JUndefined, result = Val JUndefined,
            errorText = Val JUndefined \<rparr>]"
    using tp rec by (simp add: getToolInvocations_def)
  from d h5 have pend: "getToolStatus (state (toInvocation example_dynamic_part)) = Pending"
    by blast
  from h1 h2 h3 h4 h5 inv pend show ?thesis by blast
qed

subsection \<open>Parameter editor\<close>

lemma arraySegments_abb: "arraySegments ''a, b, b'' = [''a'', ''b'', ''b'']"
  by (simp add: arraySegments_def trim_def isWhiteSpace_def)

lemma arraySegments_empty: "arraySegments '''' = []"
  by (simp add: arraySegments_def trim_def)

lemma get_array_onChange:
  "get_prop (array_onChange a k text) k =
     (if arraySegments text = [] then JUndefined else JArr (map JStr (arraySegments text)))"
  by (simp add: array_onChange_def handleChange_def get_prop_def Let_def)

lemma js_join_abb: "js_join [JStr ''a'', JStr ''b'', JStr ''b''] '', '' = ''a, b, b''"
  by (simp add: js_join_def)

lemma trim_empty_iff: "(trim s = []) = (\<forall>c \<in> set s. isWhiteSpace c)"
proof
  assume "trim s = []"
  then have a: "\<forall>c \<in> set (dropWhile isWhiteSpace s). isWhiteSpace c"
    by (simp add: trim_def dropWhile_eq_Nil_conv)
  have "dropWhile isWhiteSpace s = []"
  proof (rule ccontr)
    assume n: "dropWhile isWhiteSpace s \<noteq> []"
    then have "\<not> isWhiteSpace (hd (dropWhile isWhiteSpace s))"
      by (rule hd_dropWhile)
    moreover from n have "hd (dropWhile isWhiteSpace s) \<in> set (dropWhile isWhiteSpace s)"
      by (rule hd_in_set)
    ultimately show False using a by blast
  qed
  then show "\<forall>c \<in> set s. isWhiteSpace c"
    by (simp add: dropWhile_eq_Nil_conv)
next
  assume "\<forall>c \<in> set s. isWhiteSpace c"
  then show "trim s = []"
    by (auto simp: trim_def dest: set_dropWhileD)
qed

lemma js_split_nonempty: "js_split s sep \<noteq> []"
  by (induction s) (auto split: list.splits)

lemma set_js_split: "\<Union> (set ` set (js_split s sep)) = set s - {sep}"
proof (induction s)
  case Nil
  then show ?case by simp
next
  case (Cons c cs)
  obtain seg segs where j: "js_split cs sep = seg # segs"
    using js_split_nonempty [of cs sep] by (cases "js_split cs sep") auto
  with Cons show ?case
    by auto
qed

lemma all_segments_empty_iff:
  "(\<forall>seg \<in> set (js_split text CHR '',''). trim seg = [])
     = (\<forall>c \<in> set text. c = CHR '','' \<or> isWhiteSpace c)"
proof -
  have "(\<forall>seg \<in> set (js_split text CHR '',''). trim seg = [])
          = (\<forall>c \<in> \<Union> (set ` set (js_split text CHR '','')). isWhiteSpace c)"
    by (auto simp: trim_empty_iff)
  also have "\<dots> = (\<forall>c \<in> set text. c = CHR '','' \<or> isWhiteSpace c)"
    unfolding set_js_split by blast
  finally show ?thesis .
qed

lemma arraySegments_empty_iff:
  "(arraySegments text = []) = (\<forall>seg \<in> set (js_split text CHR '',''). trim seg = [])"
  by (simp add: arraySegments_def filter_empty_conv)

lemma array_onChange_stored:
  "array_onChange a k text k =
     Some (if arraySegments text = [] then JUndefined else JArr (map JStr (arraySegments text)))"
  by (simp add: array_onChange_def handleChange_def Let_def)

lemma clear_reads_as_removed:
  "arraySegments text = [] \<Longrightarrow> get_prop (array_onChange a k text) = get_prop (a(k := None))"
  by (rule ext) (simp add: array_onChange_def handleChange_def get_prop_def)

lemma segments_stored:
  "filter (\<lambda>s. s \<noteq> []) (map trim (js_split text CHR '','')) = arraySegments text"
  by (simp add: arraySegments_def)

text \<open>
  C4, as the claim has it, fails: after the empty text the key is still in the object,
  holding \<^verbatim>\<open>undefined\<close>; the object is not the one with the key removed.
\<close>

theorem array_clear_keeps_key:
  "array_onChange example_domains ''includeDomains'' '''' ''includeDomains'' = Some JUndefined
   \<and> array_onChange example_domains ''includeDomains'' ''''
       \<noteq> example_domains(''includeDomains'' := None)"
proof -
  have s: "array_onChange example_domains ''includeDomains'' '''' ''includeDomains''
             = Some JUndefined"
    by (simp add: array_onChange_stored arraySegments_empty)
  then have "array_onChange example_domains ''includeDomains'' ''''
               \<noteq> example_domains(''includeDomains'' := None)"
    by (metis fun_upd_same option.distinct(1))
  with s show ?thesis by simp
qed

text \<open>
  C4. Entering "a, b, b" into the input of an array parameter stores the sequence
  ["a", "b", "b"] under its key, and the editor shows that sequence again, as the text
  "a, b, b" in edit mode and as three chips in view mode. In general the key holds the
  segments of the text between commas, trimmed, the empty ones dropped, in order. When
  every segment is empty after trimming, that is when the text has nothing but commas
  and white space, the key stays in the object and holds \<^verbatim>\<open>undefined\<close>: it is not an
  empty sequence, it is classified unused, and every key of the object reads as it does
  on the object without that key.
\<close>

theorem array_onChange_roundtrip:
  "get_prop (array_onChange a k ''a, b, b'') k = JArr [JStr ''a'', JStr ''b'', JStr ''b'']
   \<and> array_input_value (array_onChange a k ''a, b, b'') k = ''a, b, b''
   \<and> renderValue (array_onChange a (key param) ''a, b, b'') param
       = Chips [''a'', ''b'', ''b'']
   \<and> array_onChange a k text k
       = Some (let segs = filter (\<lambda>s. s \<noteq> []) (map trim (js_split text CHR '',''))
               in if segs = [] then JUndefined else JArr (map JStr segs))
   \<and> (\<forall>seg \<in> set (js_split text CHR '',''). trim seg = [])
       = (\<forall>c \<in> set text. c = CHR '','' \<or> isWhiteSpace c)
   \<and> ((\<forall>seg \<in> set (js_split text CHR '',''). trim seg = []) \<longrightarrow>
         array_onChange a k text k = Some JUndefined
         \<and> get_prop (array_onChange a k text) k = JUndefined
         \<and> get_prop (array_onChange a k text) k \<noteq> JArr []
         \<and> get_prop (array_onChange a k text) = get_prop (a(k := None))
         \<and> \<not> isParamUsed (array_onChange a k text) k)
   \<and> isParamUsed (array_onChange a k text) k
       = (\<exists>seg \<in> set (js_split text CHR '',''). trim seg \<noteq> [])"
proof -
  have g: "get_prop (array_onChange a k' ''a, b, b'') k'
             = JArr [JStr ''a'', JStr ''b'', JStr ''b'']" for k'
    by (simp add: get_array_onChange arraySegments_abb)
  have i: "array_input_value (array_onChange a k ''a, b, b'') k = ''a, b, b''"
    by (simp add: array_input_value_def g js_join_abb)
  have r: "renderValue (array_onChange a (key param) ''a, b, b'') param
             = Chips [''a'', ''b'', ''b'']"
    by (simp add: renderValue_def isParamUsed_def g)
  have st: "array_onChange a k text k
       = Some (let segs = filter (\<lambda>s. s \<noteq> []) (map trim (js_split text CHR '',''))
               in if segs = [] then JUndefined else JArr (map JStr segs))"
    unfolding segments_stored by (simp add: array_onChange_stored)
  note ch = all_segments_empty_iff [of "text"]
  have cl: "array_onChange a k text k = Some JUndefined
         \<and> get_prop (array_onChange a k text) k = JUndefined
         \<and> get_prop (array_onChange a k text) k \<noteq> JArr []
         \<and> get_prop (array_onChange a k text) = get_prop (a(k := None))
         \<and> \<not> isParamUsed (array_onChange a k text) k"
    if "\<forall>seg \<in> set (js_split text CHR '',''). trim seg = []"
  proof -
    from that have e: "arraySegments text = []"
      by (simp only: arraySegments_empty_iff)
    have p1: "array_onChange a k text k = Some JUndefined"
      by (simp add: array_onChange_stored e)
    have p2: "get_prop (array_onChange a k text) k = JUndefined"
      by (simp add: get_array_onChange e)
    have p3: "get_prop (array_onChange a k text) k \<noteq> JArr []"
      by (simp add: p2)
    have p4: "\<not> isParamUsed (array_onChange a k text) k"
      by (simp add: isParamUsed_def p2)
    from p1 p2 p3 p4 clear_reads_as_removed [OF e, of a k] show ?thesis
      by blast
  qed
  have u: "isParamUsed (array_onChange a k text) k
       = (\<exists>seg \<in> set (js_split text CHR '',''). trim seg \<noteq> [])"
    using arraySegments_empty_iff [of "text"]
    by (simp add: isParamUsed_def get_array_onChange)
  from g i r st ch cl u show ?thesis
    by blast
qed

theorem array_onChange_roundtrip_witness:
  "map trim (js_split '' , ,'' CHR '','') = ['''', '''', '''']
   \<and> array_onChange example_domains ''includeDomains'' '' , ,'' ''includeDomains''
       = Some JUndefined
   \<and> get_prop (array_onChange example_domains ''includeDomains'' '' , ,'') ''includeDomains''
       = JUndefined
   \<and> \<not> isParamUsed (array_onChange example_domains ''includeDomains'' '' , ,'')
         ''includeDomains''"
proof -
  have m: "map trim (js_split '' , ,'' CHR '','') = ['''', '''', '''']"
    by (simp add: trim_def isWhiteSpace_def)
  have "\<forall>seg \<in> set (map trim (js_split '' , ,'' CHR '','')). seg = []"
    unfolding m by simp
  then have h: "\<forall>seg \<in> set (js_split '' , ,'' CHR '',''). trim seg = []"
    by simp
  from array_onChange_roundtrip [of example_domains "''includeDomains''" _ "'' , ,''"] h m
  show ?thesis
    by blast
qed

subsection \<open>Edit session of the card\<close>

lemma clean_stays_clean:
  "\<not> hasUnsavedChanges s \<Longrightarrow> \<not> is_param_change e \<Longrightarrow> \<not> hasUnsavedChanges (step s e)"
  by (cases e)
    (auto simp: step_def syncEffect_def toggleEdit_def handleDoneEditing_def
      handleRerun_def Let_def)

lemma clean_no_dispatch:
  "\<not> hasUnsavedChanges s \<Longrightarrow> e \<noteq> RerunClick \<Longrightarrow> reruns (step s e) = reruns s"
  by (cases e)
    (auto simp: step_def syncEffect_def toggleEdit_def handleDoneEditing_def
      handleRerun_def handleArgsChange_def Let_def)

lemma dispatch_clears_dirty:
  "reruns (step s e) \<noteq> reruns s \<Longrightarrow> \<not> hasUnsavedChanges (step s e)"
  by (cases e)
    (auto simp: step_def syncEffect_def toggleEdit_def handleDoneEditing_def
      handleRerun_def handleArgsChange_def Let_def split: if_splits)

lemma run_Cons: "run s (e # es) = run (step s e) es"
  by (simp add: run_def)

lemma run_clean:
  "\<not> hasUnsavedChanges s \<Longrightarrow>
   \<forall>e \<in> set es. \<not> is_param_change e \<and> e \<noteq> RerunClick \<Longrightarrow>
   \<not> hasUnsavedChanges (run s es) \<and> reruns (run s es) = reruns s"
proof (induction es arbitrary: s)
  case Nil
  then show ?case by (simp add: run_def)
next
  case (Cons e es)
  from Cons.prems have np: "\<not> is_param_change e" and nr: "e \<noteq> RerunClick"
    by auto
  have c: "\<not> hasUnsavedChanges (step s e)"
    using clean_stays_clean [OF Cons.prems(1) np] .
  have r: "reruns (step s e) = reruns s"
    using clean_no_dispatch [OF Cons.prems(1) nr] .
  from Cons.IH [OF c] Cons.prems(2) r show ?case
    by (simp add: run_Cons)
qed

lemma rerun_click:
  "rendered s RerunClick \<Longrightarrow>
   reruns (step s RerunClick) = reruns s @ [editedArgs s]
   \<and> \<not> hasUnsavedChanges (step s RerunClick)"
  by (auto simp: step_def syncEffect_def handleRerun_def Let_def)

lemma example_expanded_facts:
  "\<not> hasUnsavedChanges example_expanded \<and> rendered example_expanded EditToggle
   \<and> \<not> editMode example_expanded \<and> reruns example_expanded = []
   \<and> editedArgs example_expanded = example_args"
  by (simp add: example_expanded_def run_def step_def example_card_def mount_def
      syncEffect_def example_params_def editable_def Let_def)

lemma example_dirty_facts:
  "rendered example_dirty RerunClick \<and> hasUnsavedChanges example_dirty
   \<and> editMode example_dirty \<and> reruns example_dirty = []
   \<and> editedArgs example_dirty = example_args(''numResults'' \<mapsto> JNum 10)
   \<and> argsProp example_dirty = example_args"
  by (simp add: example_dirty_def run_def step_def example_card_def mount_def
      syncEffect_def example_params_def toggleEdit_def handleArgsChange_def
      handleChange_def editable_def Let_def)

text \<open>
  C2. When the upstream arguments of a card change, a dirty edit session keeps its edit
  buffer and a clean one takes the new arguments. The buffer starts as the arguments the
  card is mounted with, and a change made in the parameter editor makes the session
  dirty, so that the edit survives the next upstream update.
\<close>

theorem upstream_args_sync:
  "(hasUnsavedChanges s \<longrightarrow> editedArgs (step s (Upstream a r st)) = editedArgs s)
   \<and> (\<not> hasUnsavedChanges s \<longrightarrow> editedArgs (step s (Upstream a r st)) = a)
   \<and> editedArgs (mount ps a r st cb) = a
   \<and> (rendered s (ParamChange k v) \<longrightarrow>
        hasUnsavedChanges (step s (ParamChange k v))
        \<and> editedArgs (step (step s (ParamChange k v)) (Upstream a r st))
            = (editedArgs s)(k \<mapsto> v))"
  by (simp add: step_def mount_def syncEffect_def handleArgsChange_def handleChange_def
      Let_def)

theorem upstream_args_sync_witness:
  "hasUnsavedChanges example_dirty
   \<and> editedArgs (step example_dirty (Upstream Map.empty None Completed))
       = example_args(''numResults'' \<mapsto> JNum 10)
   \<and> \<not> hasUnsavedChanges example_expanded
   \<and> editedArgs (step example_expanded (Upstream Map.empty None Completed)) = Map.empty
   \<and> rendered (step example_expanded EditToggle) (ParamChange ''numResults'' (JNum 10))
   \<and> editedArgs (step (step (step example_expanded EditToggle)
                    (ParamChange ''numResults'' (JNum 10)))
                    (Upstream Map.empty None Completed))
       = example_args(''numResults'' \<mapsto> JNum 10)"
proof -
  have t: "step example_expanded EditToggle = example_expanded\<lparr>editMode := True\<rparr>"
    using example_expanded_facts by (simp add: step_def toggleEdit_def Let_def)
  have rd: "rendered (step example_expanded EditToggle)
              (ParamChange ''numResults'' (JNum 10))"
    unfolding t
    by (simp add: example_expanded_def run_def step_def example_card_def mount_def
        syncEffect_def example_params_def editable_def Let_def)
  have ea: "editedArgs (step example_expanded EditToggle) = example_args"
    unfolding t using example_expanded_facts by simp
  show ?thesis
    using upstream_args_sync [of example_dirty Map.empty None Completed]
      upstream_args_sync [of example_expanded Map.empty None Completed]
      upstream_args_sync [where s = "step example_expanded EditToggle" and a = Map.empty
        and r = None and st = Completed and k = "''numResults''" and v = "JNum 10"]
      example_dirty_facts example_expanded_facts rd ea
    by simp
qed

text \<open>
  C7. In a clean edit session, clicking the edit toggle twice (into edit mode and out
  again) with no change in between gives back the very state the card was in, edit
  buffer and upstream arguments included, and no re-run is dispatched on the way.
\<close>

theorem toggle_edit_clean_roundtrip:
  "\<not> hasUnsavedChanges s \<Longrightarrow>
   step (step s EditToggle) EditToggle = s
   \<and> editedArgs (step s EditToggle) = editedArgs s
   \<and> reruns (step s EditToggle) = reruns s
   \<and> reruns (step (step s EditToggle) EditToggle) = reruns s
   \<and> (rendered s EditToggle \<longrightarrow> editMode (step s EditToggle) = (\<not> editMode s))"
  by (simp add: step_def toggleEdit_def handleDoneEditing_def editable_def Let_def)

theorem toggle_edit_clean_roundtrip_witness:
  "\<not> hasUnsavedChanges example_expanded
   \<and> rendered example_expanded EditToggle
   \<and> \<not> editMode example_expanded
   \<and> editMode (step example_expanded EditToggle)
   \<and> step (step example_expanded EditToggle) EditToggle = example_expanded
   \<and> editedArgs (step (step example_expanded EditToggle) EditToggle) = example_args
   \<and> reruns (step (step example_expanded EditToggle) EditToggle) = []"
  using toggle_edit_clean_roundtrip [of example_expanded] example_expanded_facts
  by simp

lemma done_path:
  "rendered s EditToggle \<Longrightarrow> editMode s \<Longrightarrow> hasUnsavedChanges s \<Longrightarrow> onRerun s \<Longrightarrow>
   reruns (step s EditToggle) = reruns s @ [editedArgs s]
   \<and> \<not> hasUnsavedChanges (step s EditToggle) \<and> \<not> editMode (step s EditToggle)"
  by (simp add: step_def toggleEdit_def handleDoneEditing_def handleRerun_def syncEffect_def Let_def)

lemma run_stays_clean:
  "\<not> hasUnsavedChanges s \<Longrightarrow> \<forall>e \<in> set es. \<not> is_param_change e \<Longrightarrow>
   \<not> hasUnsavedChanges (run s es)"
proof (induction es arbitrary: s)
  case Nil
  then show ?case by (simp add: run_def)
next
  case (Cons e es)
  from Cons.prems have np: "\<not> is_param_change e" by auto
  have c: "\<not> hasUnsavedChanges (step s e)"
    using clean_stays_clean [OF Cons.prems(1) np] .
  from Cons.IH [OF c] Cons.prems(2) show ?case
    by (simp add: run_Cons)
qed


lemma clicks_bound:
  "\<not> hasUnsavedChanges s \<Longrightarrow> \<forall>e \<in> set es. \<not> is_param_change e \<Longrightarrow>
   length (reruns (run s es)) \<le> length (reruns s) + length (filter (\<lambda>e. e = RerunClick) es)"
proof (induction es arbitrary: s)
  case Nil
  then show ?case by (simp add: run_def)
next
  case (Cons e es)
  from Cons.prems have np: "\<not> is_param_change e" by auto
  have c: "\<not> hasUnsavedChanges (step s e)"
    using clean_stays_clean [OF Cons.prems(1) np] .
  have l: "length (reruns (step s e))
             \<le> length (reruns s) + (if e = RerunClick then 1 else 0)"
  proof (cases "e = RerunClick")
    case True
    then show ?thesis
      by (simp add: step_def handleRerun_def syncEffect_def Let_def)
  next
    case False
    then show ?thesis
      using clean_no_dispatch [OF Cons.prems(1) False] by simp
  qed
  from Cons.IH [OF c] Cons.prems(2)
  have "length (reruns (run (step s e) es))
          \<le> length (reruns (step s e)) + length (filter (\<lambda>e. e = RerunClick) es)"
    by simp
  with l show ?case
    by (cases "e = RerunClick") (simp_all add: run_Cons)
qed

text \<open>
  C10, as the claim has it, fails: with a clean session in edit mode, two clicks on the
  re-run button and then the exit from edit mode dispatch the same arguments twice.
\<close>

theorem double_click_dispatches_twice:
  "\<not> hasUnsavedChanges (step example_expanded EditToggle)
   \<and> editMode (run (step example_expanded EditToggle) [RerunClick, RerunClick])
   \<and> \<not> editMode (run (step example_expanded EditToggle) [RerunClick, RerunClick, EditToggle])
   \<and> reruns (run (step example_expanded EditToggle) [RerunClick, RerunClick, EditToggle])
       = [example_args, example_args]"
  by (simp add: example_expanded_def run_def step_def example_card_def mount_def
      syncEffect_def example_params_def editable_def toggleEdit_def handleRerun_def
      handleDoneEditing_def Let_def)

text \<open>
  C10. Whenever an event dispatches a re-run, the session is clean afterwards: a click
  on the re-run button dispatches the edit buffer and clears the flag, and so does the
  exit from edit mode with a dirty session. So when the button is clicked and the edit
  toggle is clicked later with no parameter change in between, the toggle dispatches
  nothing: the re-runs dispatched are those of the clicks on the button, at most one
  for each, and exactly one in all when the button is clicked once.
\<close>

theorem rerun_dispatch_clears_dirty:
  "(reruns (step s e) \<noteq> reruns s \<longrightarrow> \<not> hasUnsavedChanges (step s e))
   \<and> (rendered s RerunClick \<longrightarrow>
        reruns (step s RerunClick) = reruns s @ [editedArgs s]
        \<and> \<not> hasUnsavedChanges (step s RerunClick))
   \<and> (rendered s EditToggle \<and> editMode s \<and> hasUnsavedChanges s \<and> onRerun s \<longrightarrow>
        reruns (step s EditToggle) = reruns s @ [editedArgs s]
        \<and> \<not> hasUnsavedChanges (step s EditToggle)
        \<and> \<not> editMode (step s EditToggle))
   \<and> (rendered s RerunClick \<and> (\<forall>e' \<in> set es. \<not> is_param_change e') \<longrightarrow>
        \<not> hasUnsavedChanges (run s (RerunClick # es))
        \<and> reruns (run s (RerunClick # es @ [EditToggle])) = reruns (run s (RerunClick # es))
        \<and> length (reruns (run s (RerunClick # es @ [EditToggle])))
            \<le> length (reruns s) + 1 + length (filter (\<lambda>e'. e' = RerunClick) es))
   \<and> (rendered s RerunClick
        \<and> (\<forall>e' \<in> set es. \<not> is_param_change e' \<and> e' \<noteq> RerunClick) \<longrightarrow>
        reruns (run s (RerunClick # es @ [EditToggle])) = reruns s @ [editedArgs s])"
proof -
  have a: "reruns (step s e) \<noteq> reruns s \<longrightarrow> \<not> hasUnsavedChanges (step s e)"
    using dispatch_clears_dirty by blast
  have b: "rendered s RerunClick \<longrightarrow>
        reruns (step s RerunClick) = reruns s @ [editedArgs s]
        \<and> \<not> hasUnsavedChanges (step s RerunClick)"
    using rerun_click by blast
  have c: "rendered s EditToggle \<and> editMode s \<and> hasUnsavedChanges s \<and> onRerun s \<longrightarrow>
        reruns (step s EditToggle) = reruns s @ [editedArgs s]
        \<and> \<not> hasUnsavedChanges (step s EditToggle)
        \<and> \<not> editMode (step s EditToggle)"
    using done_path by blast
  have d: "\<not> hasUnsavedChanges (run s (RerunClick # es))
        \<and> reruns (run s (RerunClick # es @ [EditToggle])) = reruns (run s (RerunClick # es))
        \<and> length (reruns (run s (RerunClick # es @ [EditToggle])))
            \<le> length (reruns s) + 1 + length (filter (\<lambda>e'. e' = RerunClick) es)"
    if r: "rendered s RerunClick" and es: "\<forall>e' \<in> set es. \<not> is_param_change e'"
  proof -
    from rerun_click [OF r]
    have c1: "\<not> hasUnsavedChanges (step s RerunClick)"
      and d1: "reruns (step s RerunClick) = reruns s @ [editedArgs s]"
      by simp_all
    have c2: "\<not> hasUnsavedChanges (run s (RerunClick # es))"
      using run_stays_clean [OF c1 es] by (simp add: run_Cons)
    have t: "reruns (step (run s (RerunClick # es)) EditToggle)
               = reruns (run s (RerunClick # es))"
      using clean_no_dispatch [OF c2, of EditToggle] by simp
    have app: "run s (RerunClick # es @ [EditToggle])
                 = step (run s (RerunClick # es)) EditToggle"
      by (simp add: run_def)
    have "length (reruns (run (step s RerunClick) es))
            \<le> length (reruns (step s RerunClick))
               + length (filter (\<lambda>e'. e' = RerunClick) es)"
      using clicks_bound [OF c1 es] .
    with d1 have bd: "length (reruns (run s (RerunClick # es)))
            \<le> length (reruns s) + 1 + length (filter (\<lambda>e'. e' = RerunClick) es)"
      by (simp add: run_Cons)
    from c2 t app bd show ?thesis
      by simp
  qed
  have f: "reruns (run s (RerunClick # es @ [EditToggle])) = reruns s @ [editedArgs s]"
    if r: "rendered s RerunClick"
      and es: "\<forall>e' \<in> set es. \<not> is_param_change e' \<and> e' \<noteq> RerunClick"
  proof -
    from es have all: "\<forall>e' \<in> set (es @ [EditToggle]).
        \<not> is_param_change e' \<and> e' \<noteq> RerunClick"
      by auto
    from rerun_click [OF r]
    have c1: "\<not> hasUnsavedChanges (step s RerunClick)"
      and d1: "reruns (step s RerunClick) = reruns s @ [editedArgs s]"
      by simp_all
    from run_clean [OF c1 all] d1 show ?thesis
      by (simp add: run_Cons)
  qed
  from a b c d f show ?thesis
    by blast
qed

theorem rerun_dispatch_clears_dirty_witness:
  "rendered example_dirty RerunClick
   \<and> rendered example_dirty EditToggle
   \<and> hasUnsavedChanges example_dirty
   \<and> editMode example_dirty
   \<and> onRerun example_dirty
   \<and> reruns example_dirty = []
   \<and> reruns (step example_dirty EditToggle) = [example_args(''numResults'' \<mapsto> JNum 10)]
   \<and> \<not> hasUnsavedChanges (step example_dirty EditToggle)
   \<and> \<not> hasUnsavedChanges (step example_dirty RerunClick)
   \<and> editMode (run example_dirty [RerunClick, Upstream example_args (Some ''[]'') Completed])
   \<and> reruns (run example_dirty
         [RerunClick, Upstream example_args (Some ''[]'') Completed, EditToggle])
       = [example_args(''numResults'' \<mapsto> JNum 10)]"
proof -
  let ?u = "Upstream example_args (Some ''[]'') Completed"
  have m: "editMode (run example_dirty [RerunClick, ?u])"
    using example_dirty_facts
    by (simp add: run_def step_def handleRerun_def syncEffect_def Let_def)
  have rt: "rendered example_dirty EditToggle" and cb: "onRerun example_dirty"
    by (simp_all add: example_dirty_def run_def step_def example_card_def mount_def
        syncEffect_def example_params_def toggleEdit_def handleArgsChange_def
        handleChange_def editable_def Let_def)
  from example_dirty_facts have rr: "rendered example_dirty RerunClick"
    and d: "hasUnsavedChanges example_dirty" and em: "editMode example_dirty"
    and r0: "reruns example_dirty = []"
    and ea: "editedArgs example_dirty = example_args(''numResults'' \<mapsto> JNum 10)"
    by blast+
  have es: "\<forall>e' \<in> set [?u]. \<not> is_param_change e' \<and> e' \<noteq> RerunClick"
    by simp
  note t = rerun_dispatch_clears_dirty [of example_dirty RerunClick "[?u]"]
  from t rt em d cb
  have x1: "reruns (step example_dirty EditToggle)
              = reruns example_dirty @ [editedArgs example_dirty]
            \<and> \<not> hasUnsavedChanges (step example_dirty EditToggle)"
    by blast
  from t rr
  have x2: "\<not> hasUnsavedChanges (step example_dirty RerunClick)"
    by blast
  from t rr es
  have x3: "reruns (run example_dirty (RerunClick # [?u] @ [EditToggle]))
              = reruns example_dirty @ [editedArgs example_dirty]"
    by blast
  from x1 r0 ea have y1: "reruns (step example_dirty EditToggle)
              = [example_args(''numResults'' \<mapsto> JNum 10)]"
    by simp
  from x3 r0 ea have y3: "reruns (run example_dirty [RerunClick, ?u, EditToggle])
              = [example_args(''numResults'' \<mapsto> JNum 10)]"
    by simp
  from rr rt d em cb r0 y1 x1 x2 m y3 show ?thesis
    by blast
qed

subsection \<open>Collapsed-view summary\<close>

lemma startsWith_hd: "startsWith c (x # p) \<Longrightarrow> hd c = x"
  by (cases c) (simp_all add: startsWith_def)

lemma startsWith_results_hd: "startsWith c ''results: '' \<Longrightarrow> hd c = CHR ''r''"
  by (rule startsWith_hd)

lemma startsWith_append_self: "startsWith (p @ x) p"
  by (simp add: startsWith_def)

lemma domainsChip_hd: "domainsChip v = Inr s4 \<Longrightarrow> \<forall>c \<in> set s4. hd c = CHR ''d''"
  by (cases v) (auto simp: domainsChip_def split: if_splits)

lemma third_in_take3:
  assumes "length s1 \<le> 1" and "length s2 \<le> 1"
  shows "x \<in> set (take 3 (s1 @ s2 @ [x] @ others))"
proof -
  from assms(1) have a: "s1 = [] \<or> (\<exists>y. s1 = [y])"
    by (cases s1) simp_all
  from assms(2) have b: "s2 = [] \<or> (\<exists>z. s2 = [z])"
    by (cases s2) simp_all
  from a b show ?thesis
    unfolding numeral_3_eq_3 by (elim disjE exE) simp_all
qed

lemma getParamsSummary_decomp:
  assumes "getParamsSummary a = Inr ps"
  shows "\<exists>s1 s2 s45.
           ps = s1 @ s2
                @ (if truthy (get_prop a ''numResults'') \<and> get_prop a ''numResults'' \<noteq> JNum 5
                   then [''results: '' @ js_to_string (get_prop a ''numResults'')] else [])
                @ s45
           \<and> length s1 \<le> 1 \<and> length s2 \<le> 1
           \<and> (\<forall>c \<in> set (s1 @ s2 @ s45). hd c \<noteq> CHR ''r'')"
proof -
  from assms obtain s4 where d: "domainsChip (get_prop a ''includeDomains'') = Inr s4"
    by (cases "domainsChip (get_prop a ''includeDomains'')")
      (simp_all add: getParamsSummary_def Let_def)
  define s1 where "s1 = (if truthy (get_prop a ''type'') \<and> get_prop a ''type'' \<noteq> JStr ''auto''
                         then [''type: '' @ js_to_string (get_prop a ''type'')] else [])"
  define s2 where "s2 = (if truthy (get_prop a ''category'')
                         then [''category: '' @ js_to_string (get_prop a ''category'')] else [])"
  define s5 where "s5 = (if truthy (get_prop a ''startPublishedDate'')
                            \<or> truthy (get_prop a ''endPublishedDate'')
                         then [''date filter''] else [])"
  have ps: "ps = s1 @ s2
                @ (if truthy (get_prop a ''numResults'') \<and> get_prop a ''numResults'' \<noteq> JNum 5
                   then [''results: '' @ js_to_string (get_prop a ''numResults'')] else [])
                @ (s4 @ s5)"
    using assms d unfolding s1_def s2_def s5_def
    by (simp add: getParamsSummary_def Let_def)
  have l1: "length s1 \<le> 1" and l2: "length s2 \<le> 1"
    by (simp_all add: s1_def s2_def)
  have h1: "\<forall>c \<in> set s1. hd c \<noteq> CHR ''r''"
    by (simp add: s1_def)
  have h2: "\<forall>c \<in> set s2. hd c \<noteq> CHR ''r''"
    by (simp add: s2_def)
  have h4: "\<forall>c \<in> set s4. hd c \<noteq> CHR ''r''"
    using domainsChip_hd [OF d] by auto
  have h5: "\<forall>c \<in> set s5. hd c \<noteq> CHR ''r''"
    by (simp add: s5_def)
  from h1 h2 h4 h5 have h: "\<forall>c \<in> set (s1 @ s2 @ (s4 @ s5)). hd c \<noteq> CHR ''r''"
    by auto
  from ps l1 l2 h show ?thesis
    by blast
qed

lemma getParamsSummary_results_chip:
  assumes "getParamsSummary a = Inr ps"
  shows "(\<exists>c \<in> set ps. startsWith c ''results: '')
           = (truthy (get_prop a ''numResults'') \<and> get_prop a ''numResults'' \<noteq> JNum 5)"
    and "(\<exists>c \<in> set (take 3 ps). startsWith c ''results: '')
           = (truthy (get_prop a ''numResults'') \<and> get_prop a ''numResults'' \<noteq> JNum 5)"
    and "\<forall>c \<in> set ps. startsWith c ''results: '' \<longrightarrow>
           c = ''results: '' @ js_to_string (get_prop a ''numResults'')"
proof -
  let ?cond = "truthy (get_prop a ''numResults'') \<and> get_prop a ''numResults'' \<noteq> JNum 5"
  let ?chip = "''results: '' @ js_to_string (get_prop a ''numResults'')"
  from getParamsSummary_decomp [OF assms] obtain s1 s2 s45 where
    ps: "ps = s1 @ s2 @ (if ?cond then [?chip] else []) @ s45"
    and l1: "length s1 \<le> 1" and l2: "length s2 \<le> 1"
    and h: "\<forall>c \<in> set (s1 @ s2 @ s45). hd c \<noteq> CHR ''r''"
    by blast
  have only: "c = ?chip \<and> ?cond" if "c \<in> set ps" and "startsWith c ''results: ''" for c
  proof -
    from that(2) have "hd c = CHR ''r''"
      by (rule startsWith_results_hd)
    with h have "c \<notin> set (s1 @ s2 @ s45)"
      by blast
    with that(1) ps show ?thesis
      by (auto split: if_splits)
  qed
  have there: "?chip \<in> set (take 3 ps)" if ?cond
    using that ps third_in_take3 [OF l1 l2, of ?chip s45] by simp
  have chip: "startsWith ?chip ''results: ''"
    by (rule startsWith_append_self)
  show "(\<exists>c \<in> set ps. startsWith c ''results: '') = ?cond"
    using only there chip by (meson in_set_takeD)
  show "(\<exists>c \<in> set (take 3 ps). startsWith c ''results: '') = ?cond"
    using only there chip by (meson in_set_takeD)
  show "\<forall>c \<in> set ps. startsWith c ''results: '' \<longrightarrow> c = ?chip"
    using only by blast
qed

lemma numResults_card_facts:
  "\<not> isExpanded (numResults_card n) \<and> argsProp (numResults_card n) = [''numResults'' \<mapsto> JNum n]"
  by (simp add: numResults_card_def mount_def syncEffect_def)

lemma summary_numResults_10:
  "summaryChips (numResults_card 10) = Inr ([''results: 10''], 0)"
  by (simp add: summaryChips_def numResults_card_facts getParamsSummary_def
      get_prop_def domainsChip_def show_int_def show_nat.simps digit_char_def)

lemma summary_numResults_5:
  "summaryChips (numResults_card 5) = Inr ([], 0)"
  by (simp add: summaryChips_def numResults_card_facts getParamsSummary_def
      get_prop_def domainsChip_def)

text \<open>
  C9, as the claim has it, fails: \<^verbatim>\<open>numResults = 0\<close> differs from the default 5, and the
  collapsed card shows no chip for it.
\<close>

theorem numResults_zero_no_chip:
  "get_prop (argsProp (numResults_card 0)) ''numResults'' \<noteq> JNum 5
   \<and> summaryChips (numResults_card 0) = Inr ([], 0)"
  by (simp add: summaryChips_def numResults_card_facts getParamsSummary_def
      get_prop_def domainsChip_def)

text \<open>
  C9. Whenever the summary of a collapsed card is computed, its chips contain one for
  \<^verbatim>\<open>numResults\<close> exactly when \<^verbatim>\<open>numResults\<close> is truthy and is not the number 5, and that
  chip reads "results: " followed by the value. So 10 shows as "results: 10", and
  neither 5 nor a falsy value such as 0 shows.
\<close>

theorem summaryChips_numResults:
  assumes "summaryChips s = Inr (chips, extra)" and "\<not> isExpanded s"
  shows "(\<exists>c \<in> set chips. startsWith c ''results: '')
           = (truthy (get_prop (argsProp s) ''numResults'')
              \<and> get_prop (argsProp s) ''numResults'' \<noteq> JNum 5)
         \<and> (\<forall>c \<in> set chips. startsWith c ''results: '' \<longrightarrow>
              c = ''results: '' @ js_to_string (get_prop (argsProp s) ''numResults''))"
proof (cases "getParamsSummary (argsProp s)")
  case (Inl e)
  with assms show ?thesis
    by (simp add: summaryChips_def)
next
  case (Inr ps)
  note g = getParamsSummary_results_chip [OF Inr]
  show ?thesis
  proof (cases "ps = []")
    case True
    with assms Inr have "chips = []"
      by (simp add: summaryChips_def)
    with True g(1) show ?thesis
      by simp
  next
    case False
    with assms Inr have c: "chips = take 3 ps"
      by (simp add: summaryChips_def)
    have "\<forall>c \<in> set (take 3 ps). startsWith c ''results: '' \<longrightarrow>
            c = ''results: '' @ js_to_string (get_prop (argsProp s) ''numResults'')"
      using g(3) by (meson in_set_takeD)
    with c g(2) show ?thesis
      by simp
  qed
qed

theorem summaryChips_numResults_witness:
  "summaryChips (numResults_card 10) = Inr ([''results: 10''], 0)
   \<and> \<not> isExpanded (numResults_card 10)
   \<and> startsWith ''results: 10'' ''results: ''
   \<and> truthy (get_prop (argsProp (numResults_card 10)) ''numResults'')
   \<and> get_prop (argsProp (numResults_card 10)) ''numResults'' \<noteq> JNum 5
   \<and> summaryChips (numResults_card 5) = Inr ([], 0)
   \<and> \<not> isExpanded (numResults_card 5)
   \<and> get_prop (argsProp (numResults_card 5)) ''numResults'' = JNum 5"
proof -
  have p: "startsWith ''results: 10'' ''results: ''"
    by (simp add: startsWith_def)
  have e: "\<not> isExpanded (numResults_card n)" for n
    by (simp add: numResults_card_facts)
  have n5: "get_prop (argsProp (numResults_card 5)) ''numResults'' = JNum 5"
    by (simp add: numResults_card_facts get_prop_def)
  from p have ex: "\<exists>c \<in> set [''results: 10'']. startsWith c ''results: ''"
    by simp
  from summaryChips_numResults [OF summary_numResults_10 e] ex
  have a: "truthy (get_prop (argsProp (numResults_card 10)) ''numResults'')
           \<and> get_prop (argsProp (numResults_card 10)) ''numResults'' \<noteq> JNum 5"
    by blast
  from a p n5 e summary_numResults_10 summary_numResults_5
  show ?thesis by blast
qed

subsection \<open>Result panel\<close>

text \<open>
  C1. For a result of 2500 characters the open result panel shows the first 2000
  characters and then the notice. The notice is a fixed text: where the number of
  omitted characters should stand it reads \<^verbatim>\<open>{result.length - 2000}\<close>, so no number
  such as 500 is stated.
\<close>

theorem resultPanel_notice_is_literal:
  "resultPanel long_result_card
     = Some (replicate 2000 (CHR ''x'')
             @ CHR 0x0A # CHR 0x0A
               # ''... truncated ({result.length - 2000} more characters)'')"
  by (simp add: long_result_card_def run_def step_def mount_def syncEffect_def
      resultPanel_def resultPreview_def truncation_notice_def)

end
